theory Spec2Isabelle
  imports Main
begin

section \<open>Strings and small helpers of the Python runtime\<close>

text \<open>
  A Python \<open>str\<close> is modelled as a \<open>string\<close>, one \<open>char\<close> for each character.
  \<open>str.lower\<close> and \<open>str.upper\<close> are modelled on the ASCII letters, and are those of
  Python on strings of ASCII characters; no character outside \<open>A\<close>..\<open>Z\<close> is lowered by
  Python to one of the letters \<open>p\<close>, \<open>d\<close>, \<open>f\<close>, so the comparison with the allowed
  extension is the one the program makes on every string.
\<close>

type_synonym path = string

datatype error = FileNotFoundError | PdfReadError | ValueError | IndexError | OSError

definition lower_char :: "char \<Rightarrow> char" where
  "lower_char c =
     (case map_of (zip ''ABCDEFGHIJKLMNOPQRSTUVWXYZ'' ''abcdefghijklmnopqrstuvwxyz'') c of
        Some l \<Rightarrow> l
      | None \<Rightarrow> c)"

definition upper_char :: "char \<Rightarrow> char" where
  "upper_char c =
     (case map_of (zip ''abcdefghijklmnopqrstuvwxyz'' ''ABCDEFGHIJKLMNOPQRSTUVWXYZ'') c of
        Some u \<Rightarrow> u
      | None \<Rightarrow> c)"

definition lower :: "string \<Rightarrow> string" where
  "lower s = map lower_char s"

definition upper :: "string \<Rightarrow> string" where
  "upper s = map upper_char s"

text \<open>\<open>str(n)\<close> for a non-negative integer: its decimal digits.\<close>

definition digit_char :: "nat \<Rightarrow> char" where
  "digit_char d = ''0123456789'' ! d"

fun str_nat :: "nat \<Rightarrow> string" where
  "str_nat n = (if n < 10 then [digit_char n] else str_nat (n div 10) @ [digit_char (n mod 10)])"

declare str_nat.simps [simp del]

definition str_int :: "int \<Rightarrow> string" where
  "str_int i = (if i < 0 then CHR ''-'' # str_nat (nat (- i)) else str_nat (nat i))"

text \<open>\<open>s.zfill(n)\<close>, as the zero-padded fields of \<open>strftime\<close> need it.\<close>

definition zfill :: "nat \<Rightarrow> string \<Rightarrow> string" where
  "zfill n s = replicate (n - length s) CHR ''0'' @ s"

text \<open>\<open>sep.join(xs)\<close>.\<close>

fun py_join :: "string \<Rightarrow> string list \<Rightarrow> string" where
  "py_join sep [] = []"
| "py_join sep [x] = x"
| "py_join sep (x # y # ys) = x @ sep @ py_join sep (y # ys)"

text \<open>\<open>s.rfind(c)\<close>: the index of the last occurrence of \<open>c\<close>, if there is one.\<close>

fun rfind :: "char \<Rightarrow> string \<Rightarrow> nat option" where
  "rfind c [] = None"
| "rfind c (x # xs) =
     (case rfind c xs of
        Some i \<Rightarrow> Some (Suc i)
      | None \<Rightarrow> if x = c then Some 0 else None)"

text \<open>\<open>s.rsplit(c, 1)\<close>: at most one split, at the last occurrence of the separator.\<close>

definition rsplit1 :: "char \<Rightarrow> string \<Rightarrow> string list" where
  "rsplit1 c s =
     (case rfind c s of
        None \<Rightarrow> [s]
      | Some i \<Rightarrow> [take i s, drop (Suc i) s])"

text \<open>
  \<open>xs[i]\<close> on a list: a negative index counts from the end, and an index out of
  range raises \<open>IndexError\<close>.
\<close>

definition py_index :: "'a list \<Rightarrow> int \<Rightarrow> error + 'a" where
  "py_index xs i =
     (if 0 \<le> i \<and> i < int (length xs) then Inr (xs ! nat i)
      else if i < 0 \<and> - int (length xs) \<le> i then Inr (xs ! nat (int (length xs) + i))
      else Inl IndexError)"

text \<open>
  \<open>range(lo, hi, step)\<close>: \<open>ValueError\<close> for a zero step, else the arithmetic
  progression from \<open>lo\<close> that stops before \<open>hi\<close>. \<open>range(lo, hi)\<close> has step 1.
\<close>

definition py_range3 :: "int \<Rightarrow> int \<Rightarrow> int \<Rightarrow> error + int list" where
  "py_range3 lo hi step =
     (if step = 0 then Inl ValueError
      else if 0 < step
      then Inr (map (\<lambda>i. lo + int i * step) [0..<nat ((hi - lo + step - 1) div step)])
      else Inr (map (\<lambda>i. lo + int i * step) [0..<nat ((lo - hi - step - 1) div (- step))]))"

definition py_range2 :: "int \<Rightarrow> int \<Rightarrow> int list" where
  "py_range2 lo hi = map (\<lambda>i. lo + int i) [0..<nat (hi - lo)]"

text \<open>
  \<open>int(s)\<close> on a string: surrounding whitespace is dropped, one sign is allowed,
  and the digits may be grouped by single underscores; anything else raises
  \<open>ValueError\<close>, and so do more than 4300 digits. On a string of ASCII characters
  the whitespace is that of C (tab to carriage return, and the space); on any other
  string it is Unicode's, which adds the separators \<open>0x1C\<close>..\<open>0x1F\<close>, the next-line
  character and the no-break space. (A \<open>char\<close> stands for a character below 256, none
  of which is a decimal digit outside \<open>0\<close>..\<open>9\<close>.)
\<close>

definition is_ascii :: "char \<Rightarrow> bool" where
  "is_ascii c = ((of_char c :: nat) < 128)"

definition is_space_ascii :: "char \<Rightarrow> bool" where
  "is_space_ascii c =
     (c \<in> set [CHR 0x09, CHR 0x0A, CHR 0x0B, CHR 0x0C, CHR 0x0D, CHR 0x20])"

definition is_space_unicode :: "char \<Rightarrow> bool" where
  "is_space_unicode c =
     (c \<in> set [CHR 0x09, CHR 0x0A, CHR 0x0B, CHR 0x0C, CHR 0x0D, CHR 0x1C, CHR 0x1D,
                CHR 0x1E, CHR 0x1F, CHR 0x20, CHR 0x85, CHR 0xA0])"

definition is_space :: "string \<Rightarrow> char \<Rightarrow> bool" where
  "is_space s c = (if list_all is_ascii s then is_space_ascii c else is_space_unicode c)"

definition strip :: "string \<Rightarrow> string" where
  "strip s = rev (dropWhile (is_space s) (rev (dropWhile (is_space s) s)))"

definition MAX_STR_DIGITS :: nat where
  "MAX_STR_DIGITS = 4300"

definition is_digit :: "char \<Rightarrow> bool" where
  "is_digit c = (c \<in> set ''0123456789'')"

definition digit_val :: "char \<Rightarrow> nat" where
  "digit_val c = (case map_of (zip ''0123456789'' [0, 1, 2, 3, 4, 5, 6, 7, 8, 9]) c of
        Some d \<Rightarrow> d
      | None \<Rightarrow> 0)"

fun digits_ok :: "string \<Rightarrow> bool" where
  "digits_ok [] = False"
| "digits_ok [c] = is_digit c"
| "digits_ok (c # d # r) =
     (is_digit c \<and> (if d = CHR ''_'' then digits_ok r else digits_ok (d # r)))"

definition digits_value :: "string \<Rightarrow> nat" where
  "digits_value s = foldl (\<lambda>a c. 10 * a + digit_val c) 0 (filter (\<lambda>c. c \<noteq> CHR ''_'') s)"

definition parse_digits :: "string \<Rightarrow> error + nat" where
  "parse_digits ds =
     (if digits_ok ds \<and> length (filter is_digit ds) \<le> MAX_STR_DIGITS
      then Inr (digits_value ds) else Inl ValueError)"

definition py_int :: "string \<Rightarrow> error + int" where
  "py_int s =
     (case strip s of
        [] \<Rightarrow> Inl ValueError
      | c # r \<Rightarrow>
          if c = CHR ''-''
          then (case parse_digits r of Inl e \<Rightarrow> Inl e | Inr n \<Rightarrow> Inr (- int n))
          else if c = CHR ''+''
          then (case parse_digits r of Inl e \<Rightarrow> Inl e | Inr n \<Rightarrow> Inr (int n))
          else (case parse_digits (c # r) of Inl e \<Rightarrow> Inl e | Inr n \<Rightarrow> Inr (int n)))"

text \<open>\<open>os.path.join(a, b)\<close> and \<open>os.path.basename(p)\<close> of \<open>posixpath\<close>.\<close>

definition os_path_join :: "path \<Rightarrow> string \<Rightarrow> path" where
  "os_path_join a b =
     (if b \<noteq> [] \<and> hd b = CHR ''/'' then b
      else if a = [] \<or> last a = CHR ''/'' then a @ b
      else a @ CHR ''/'' # b)"

definition os_path_basename :: "path \<Rightarrow> string" where
  "os_path_basename p = rev (takeWhile (\<lambda>c. c \<noteq> CHR ''/'') (rev p))"

section \<open>Configuration and validation\<close>

definition UPLOAD_FOLDER :: string where
  "UPLOAD_FOLDER = ''uploads''"

definition OUTPUT_FOLDER :: string where
  "OUTPUT_FOLDER = ''outputs''"

definition ALLOWED_EXTENSIONS :: "string set" where
  "ALLOWED_EXTENSIONS = {''pdf''}"

text \<open>
  \<open>allowed_file\<close>: \<open>'.' in filename and filename.rsplit('.', 1)[1].lower() in
  ALLOWED_EXTENSIONS\<close>. The \<open>and\<close> does not evaluate its right side when the left
  side is false.
\<close>

definition allowed_file :: "string \<Rightarrow> error + bool" where
  "allowed_file filename =
     (if CHR ''.'' \<in> set filename
      then (case py_index (rsplit1 CHR ''.'' filename) 1 of
              Inl e \<Rightarrow> Inl e
            | Inr ext \<Rightarrow> Inr (lower ext \<in> ALLOWED_EXTENSIONS))
      else Inr False)"

text \<open>The words of the specification: the segment after the last dot.\<close>

definition after_last_dot :: "string \<Rightarrow> string" where
  "after_last_dot s = rev (takeWhile (\<lambda>c. c \<noteq> CHR ''.'') (rev s))"

section \<open>The clock and generated file names\<close>

text \<open>
  \<open>datetime.now()\<close> reads a clock that the program does not control. The world
  carries the readings the clock will give, one for each call, and the number of
  readings taken so far.
\<close>

record datetime =
  dt_year :: nat
  dt_month :: nat
  dt_day :: nat
  dt_hour :: nat
  dt_minute :: nat
  dt_second :: nat
  dt_microsecond :: nat

definition valid_datetime :: "datetime \<Rightarrow> bool" where
  "valid_datetime t =
     (1000 \<le> dt_year t \<and> dt_year t \<le> 9999 \<and> 1 \<le> dt_month t \<and> dt_month t \<le> 12 \<and>
      1 \<le> dt_day t \<and> dt_day t \<le> 31 \<and> dt_hour t < 24 \<and> dt_minute t < 60 \<and>
      dt_second t < 60 \<and> dt_microsecond t < 1000000)"

text \<open>
  \<open>strftime('%Y%m%d_%H%M%S')\<close>: the year in decimal (four digits from the year 1000
  on), the other fields padded to two digits.
\<close>

definition strftime_stamp :: "datetime \<Rightarrow> string" where
  "strftime_stamp t =
     str_nat (dt_year t) @ zfill 2 (str_nat (dt_month t)) @
     zfill 2 (str_nat (dt_day t)) @ ''_'' @ zfill 2 (str_nat (dt_hour t)) @
     zfill 2 (str_nat (dt_minute t)) @ zfill 2 (str_nat (dt_second t))"

definition month_name :: "nat \<Rightarrow> string" where
  "month_name m =
     [''January'', ''February'', ''March'', ''April'', ''May'', ''June'', ''July'',
      ''August'', ''September'', ''October'', ''November'', ''December''] ! (m - 1)"

text \<open>\<open>strftime("%B %d, %Y")\<close>.\<close>

definition strftime_date :: "datetime \<Rightarrow> string" where
  "strftime_date t =
     month_name (dt_month t) @ '' '' @ zfill 2 (str_nat (dt_day t)) @ '', '' @
     str_nat (dt_year t)"

section \<open>Documents and the file system\<close>

text \<open>
  A page as the PDF library shows it to this program: the text it extracts from the
  page's own content, the \<open>/Rotate\<close> entry, and the pages merged onto it (whose text
  the model of extraction leaves out). A file holds a PDF document, plain text, a
  document built from flowables, or bytes that are no PDF.
\<close>

record page =
  page_text :: string
  rotation :: int
  overlays :: "string list"

datatype flowable = Paragraph string string | Spacer nat nat

datatype content = PdfDoc "page list" | TextDoc string | BuiltDoc "flowable list" | Garbage

text \<open>
  A path string names a location of the file system: the directory names from the root
  down to the file. The system resolves a path one component at a time, from the root
  for an absolute path and from the working directory otherwise: an empty component and
  \<open>.\<close> stay where they are, \<open>..\<close> goes to the parent directory (the root is its own
  parent), a name goes down. Two path strings that resolve to the same location are the
  same file. Symbolic links are not modelled, and whether the directories on the way
  exist is part of what the environment decides when a path is opened for writing.
\<close>

type_synonym location = "string list"

fun split_from :: "string \<Rightarrow> path \<Rightarrow> string list" where
  "split_from component [] = [component]"
| "split_from component (c # cs) =
     (if c = CHR ''/'' then component # split_from [] cs
      else split_from (component @ [c]) cs)"

definition split_path :: "path \<Rightarrow> string list" where
  "split_path p = split_from [] p"

fun walk :: "location \<Rightarrow> string list \<Rightarrow> location" where
  "walk dir [] = dir"
| "walk dir (c # cs) =
     (if c = [] \<or> c = ''.'' then walk dir cs
      else if c = ''..'' then walk (butlast dir) cs
      else walk (dir @ [c]) cs)"

definition resolve :: "location \<Rightarrow> path \<Rightarrow> location" where
  "resolve wd p = walk (if p \<noteq> [] \<and> hd p = CHR ''/'' then [] else wd) (split_path p)"

record world =
  files :: "location \<rightharpoonup> content"
  cwd :: location
  writable :: "path \<Rightarrow> bool"
  clock :: "nat \<Rightarrow> datetime"
  tick :: nat

text \<open>The content of the file that a path names, if there is one.\<close>

definition file_at :: "world \<Rightarrow> path \<Rightarrow> content option" where
  "file_at w p = files w (resolve (cwd w) p)"

definition datetime_now :: "world \<Rightarrow> datetime \<times> world" where
  "datetime_now w = (clock w (tick w), w\<lparr>tick := Suc (tick w)\<rparr>)"

definition generate_filename :: "string \<Rightarrow> string \<Rightarrow> world \<Rightarrow> string \<times> world" where
  "generate_filename base_name extension w =
     (let (now, w') = datetime_now w;
          timestamp = strftime_stamp now
      in (base_name @ ''_'' @ timestamp @ extension, w'))"

definition os_path_exists :: "world \<Rightarrow> path \<Rightarrow> bool" where
  "os_path_exists w p = (file_at w p \<noteq> None)"

definition os_remove :: "world \<Rightarrow> path \<Rightarrow> error + world" where
  "os_remove w p =
     (if os_path_exists w p
      then Inr (w\<lparr>files := (files w)(resolve (cwd w) p := None)\<rparr>)
      else Inl FileNotFoundError)"

text \<open>Opening a path for writing and writing the whole content; the environment
  decides which paths can be written.\<close>

definition write_file :: "world \<Rightarrow> path \<Rightarrow> content \<Rightarrow> error + world" where
  "write_file w p c =
     (if writable w p then Inr (w\<lparr>files := (files w)(resolve (cwd w) p \<mapsto> c)\<rparr>)
      else Inl OSError)"

text \<open>\<open>PdfReader(path)\<close>: the pages of the document stored at the path.\<close>

definition PdfReader :: "world \<Rightarrow> path \<Rightarrow> error + page list" where
  "PdfReader w p =
     (case file_at w p of
        None \<Rightarrow> Inl FileNotFoundError
      | Some (PdfDoc pages) \<Rightarrow> Inr pages
      | Some _ \<Rightarrow> Inl PdfReadError)"

section \<open>The PDF operations\<close>

text \<open>
  Every operation returns its result, or the exception it re-raises, together with
  the world it leaves behind. The \<open>except\<close> clauses only log and re-raise.
\<close>

subsection \<open>merge\<close>

text \<open>The first loop of \<open>merge_pdfs\<close>: \<open>merger.append\<close> for each path that exists.\<close>

fun merger_append :: "world \<Rightarrow> path list \<Rightarrow> page list \<Rightarrow> error + page list" where
  "merger_append w [] merger = Inr merger"
| "merger_append w (file_path # rest) merger =
     (if os_path_exists w file_path
      then (case PdfReader w file_path of
              Inl e \<Rightarrow> Inl e
            | Inr pages \<Rightarrow> merger_append w rest (merger @ pages))
      else merger_append w rest merger)"

text \<open>The second loop: remove each uploaded file that exists.\<close>

fun cleanup_uploaded :: "world \<Rightarrow> path list \<Rightarrow> (error + unit) \<times> world" where
  "cleanup_uploaded w [] = (Inr (), w)"
| "cleanup_uploaded w (file_path # rest) =
     (if os_path_exists w file_path
      then (case os_remove w file_path of
              Inl e \<Rightarrow> (Inl e, w)
            | Inr w' \<Rightarrow> cleanup_uploaded w' rest)
      else cleanup_uploaded w rest)"

definition merge_pdfs :: "world \<Rightarrow> path list \<Rightarrow> string \<Rightarrow> (error + path) \<times> world" where
  "merge_pdfs w file_paths output_filename =
     (case merger_append w file_paths [] of
        Inl e \<Rightarrow> (Inl e, w)
      | Inr merged \<Rightarrow>
          let output_path = os_path_join OUTPUT_FOLDER output_filename
          in (case write_file w output_path (PdfDoc merged) of
                Inl e \<Rightarrow> (Inl e, w)
              | Inr w1 \<Rightarrow>
                  (case cleanup_uploaded w1 file_paths of
                     (Inl e, w2) \<Rightarrow> (Inl e, w2)
                   | (Inr u, w2) \<Rightarrow> (Inr output_path, w2))))"

subsection \<open>watermark\<close>

definition merge_page :: "string \<Rightarrow> page \<Rightarrow> page" where
  "merge_page watermark_page pg = pg\<lparr>overlays := overlays pg @ [watermark_page]\<rparr>"

definition add_watermark ::
  "world \<Rightarrow> path \<Rightarrow> string \<Rightarrow> string \<Rightarrow> (error + path) \<times> world" where
  "add_watermark w pdf_path watermark_text output_filename =
     (case PdfReader w pdf_path of
        Inl e \<Rightarrow> (Inl e, w)
      | Inr pages \<Rightarrow>
          let watermark_page = upper watermark_text;
              written = map (merge_page watermark_page) pages;
              output_path = os_path_join OUTPUT_FOLDER output_filename
          in (case write_file w output_path (PdfDoc written) of
                Inl e \<Rightarrow> (Inl e, w)
              | Inr w1 \<Rightarrow>
                  (case os_remove w1 pdf_path of
                     Inl e \<Rightarrow> (Inl e, w1)
                   | Inr w2 \<Rightarrow> (Inr output_path, w2))))"

subsection \<open>extract\<close>

text \<open>\<open>enumerate(xs, 1)\<close>.\<close>

definition enumerate1 :: "'a list \<Rightarrow> (nat \<times> 'a) list" where
  "enumerate1 xs = zip [1..<Suc (length xs)] xs"

definition text_content :: "page list \<Rightarrow> string list" where
  "text_content pages =
     map (\<lambda>(page_num, pg).
            ''--- Page '' @ str_nat page_num @ '' ---'' @ [CHR 0x0A] @ page_text pg @ [CHR 0x0A])
         (enumerate1 pages)"

definition full_text :: "page list \<Rightarrow> string" where
  "full_text pages = py_join [CHR 0x0A] (text_content pages)"

text \<open>
  The returned preview, \<open>full_text[:1000] + "..." if len(full_text) > 1000 else
  full_text\<close>: the conditional expression binds weaker than \<open>+\<close>.
\<close>

definition preview :: "string \<Rightarrow> string" where
  "preview txt = (if length txt > 1000 then take 1000 txt @ ''...'' else txt)"

definition extract_text :: "world \<Rightarrow> path \<Rightarrow> (error + path \<times> string) \<times> world" where
  "extract_text w pdf_path =
     (case PdfReader w pdf_path of
        Inl e \<Rightarrow> (Inl e, w)
      | Inr pages \<Rightarrow>
          let txt = full_text pages;
              (output_filename, w1) = generate_filename ''extracted_text'' ''.txt'' w;
              output_path = os_path_join OUTPUT_FOLDER output_filename
          in (case write_file w1 output_path (TextDoc txt) of
                Inl e \<Rightarrow> (Inl e, w1)
              | Inr w2 \<Rightarrow>
                  (case os_remove w2 pdf_path of
                     Inl e \<Rightarrow> (Inl e, w2)
                   | Inr w3 \<Rightarrow> (Inr (output_path, preview txt), w3))))"

subsection \<open>split\<close>

text \<open>The inner loop: \<open>writer.add_page(reader.pages[page_num])\<close> for each index.\<close>

fun add_pages :: "page list \<Rightarrow> int list \<Rightarrow> page list \<Rightarrow> error + page list" where
  "add_pages pages [] writer = Inr writer"
| "add_pages pages (page_num # rest) writer =
     (case py_index pages page_num of
        Inl e \<Rightarrow> Inl e
      | Inr pg \<Rightarrow> add_pages pages rest (writer @ [pg]))"

text \<open>The outer loop, over the start pages that \<open>range(0, total_pages,
  pages_per_file)\<close> gave.\<close>

fun split_loop ::
  "world \<Rightarrow> page list \<Rightarrow> int \<Rightarrow> int list \<Rightarrow> path list \<Rightarrow> (error + path list) \<times> world" where
  "split_loop w pages pages_per_file [] output_files = (Inr output_files, w)"
| "split_loop w pages pages_per_file (start_page # rest) output_files =
     (let total_pages = int (length pages);
          end_page = min (start_page + pages_per_file) total_pages
      in (case add_pages pages (py_range2 start_page end_page) [] of
            Inl e \<Rightarrow> (Inl e, w)
          | Inr written \<Rightarrow>
              let (output_filename, w1) =
                    generate_filename
                      (''split_pages_'' @ str_int (start_page + 1) @ ''-'' @ str_int end_page)
                      ''.pdf'' w;
                  output_path = os_path_join OUTPUT_FOLDER output_filename
              in (case write_file w1 output_path (PdfDoc written) of
                    Inl e \<Rightarrow> (Inl e, w1)
                  | Inr w2 \<Rightarrow>
                      split_loop w2 pages pages_per_file rest (output_files @ [output_path]))))"

definition split_pdf :: "world \<Rightarrow> path \<Rightarrow> int \<Rightarrow> (error + path list) \<times> world" where
  "split_pdf w pdf_path pages_per_file =
     (case PdfReader w pdf_path of
        Inl e \<Rightarrow> (Inl e, w)
      | Inr pages \<Rightarrow>
          (case py_range3 0 (int (length pages)) pages_per_file of
             Inl e \<Rightarrow> (Inl e, w)
           | Inr starts \<Rightarrow>
               (case split_loop w pages pages_per_file starts [] of
                  (Inl e, w1) \<Rightarrow> (Inl e, w1)
                | (Inr output_files, w1) \<Rightarrow>
                    (case os_remove w1 pdf_path of
                       Inl e \<Rightarrow> (Inl e, w1)
                     | Inr w2 \<Rightarrow> (Inr output_files, w2)))))"

subsection \<open>rotate\<close>

text \<open>
  \<open>page.rotate(angle)\<close> of the PDF library: \<open>ValueError\<close> unless the angle is a
  multiple of 90, else the angle is added to the page's \<open>/Rotate\<close> entry.
\<close>

definition rotate_page :: "int \<Rightarrow> page \<Rightarrow> error + page" where
  "rotate_page angle pg =
     (if angle mod 90 \<noteq> 0 then Inl ValueError
      else Inr (pg\<lparr>rotation := rotation pg + angle\<rparr>))"

fun rotate_pages :: "int \<Rightarrow> page list \<Rightarrow> page list \<Rightarrow> error + page list" where
  "rotate_pages angle [] writer = Inr writer"
| "rotate_pages angle (pg # rest) writer =
     (case rotate_page angle pg of
        Inl e \<Rightarrow> Inl e
      | Inr rotated_page \<Rightarrow> rotate_pages angle rest (writer @ [rotated_page]))"

definition rotate_pdf :: "world \<Rightarrow> path \<Rightarrow> int \<Rightarrow> string \<Rightarrow> (error + path) \<times> world" where
  "rotate_pdf w pdf_path angle output_filename =
     (case PdfReader w pdf_path of
        Inl e \<Rightarrow> (Inl e, w)
      | Inr pages \<Rightarrow>
          (case rotate_pages angle pages [] of
             Inl e \<Rightarrow> (Inl e, w)
           | Inr written \<Rightarrow>
               let output_path = os_path_join OUTPUT_FOLDER output_filename
               in (case write_file w output_path (PdfDoc written) of
                     Inl e \<Rightarrow> (Inl e, w)
                   | Inr w1 \<Rightarrow>
                       (case os_remove w1 pdf_path of
                          Inl e \<Rightarrow> (Inl e, w1)
                        | Inr w2 \<Rightarrow> (Inr output_path, w2)))))"

subsection \<open>cover letter\<close>

definition body_content :: "string \<Rightarrow> string \<Rightarrow> string list" where
  "body_content position company =
     [''I am writing to express my strong interest in the '' @ position @ '' position at '' @
        company @ ''. With my background and passion for this field, I am confident that I would be a valuable addition to your team.'',
      ''In my previous experience, I have developed strong technical skills and a deep understanding of industry best practices. I am particularly drawn to this opportunity because of your company'' @ [CHR 0x27] @ ''s reputation for innovation and excellence.'',
      ''I would welcome the opportunity to discuss how my skills and enthusiasm can contribute to '' @
        company @ [CHR 0x27] @ ''s continued success. Thank you for considering my application. I look forward to hearing from you soon.'']"

definition contact_info :: "string \<Rightarrow> string \<Rightarrow> string list" where
  "contact_info email phone =
     (if email \<noteq> [] then [''Email: '' @ email] else []) @
     (if phone \<noteq> [] then [''Phone: '' @ phone] else [])"

text \<open>
  The story is built in the order of the source: the title and the contact line, then
  the clock is read for the date, then the remaining paragraphs. \<open>Paragraph\<close> of the
  layout library parses its text as markup and raises \<open>ValueError\<close> on text it does
  not accept; which texts it accepts belongs to that library and is a parameter.
\<close>

definition story_header :: "string \<Rightarrow> string \<Rightarrow> string \<Rightarrow> flowable list" where
  "story_header name email phone =
     [Paragraph (''<b>'' @ name @ ''</b>'') ''CustomTitle''] @
     (if email \<noteq> [] \<or> phone \<noteq> []
      then [Paragraph (py_join '' | '' (contact_info email phone)) ''Header'']
      else []) @
     [Spacer 1 20]"

definition story_letter :: "string \<Rightarrow> string \<Rightarrow> string \<Rightarrow> string \<Rightarrow> flowable list" where
  "story_letter name position company current_date =
     [Paragraph current_date ''Body'', Spacer 1 20,
      Paragraph (''<b>'' @ company @ ''</b><br/>Hiring Manager'') ''Body'', Spacer 1 20,
      Paragraph ''Dear Hiring Manager,'' ''Body'', Spacer 1 12] @
     concat (map (\<lambda>paragraph. [Paragraph paragraph ''Body'', Spacer 1 12])
               (body_content position company)) @
     [Spacer 1 20, Paragraph ''Sincerely,<br/><br/><br/>'' ''Body'',
      Paragraph (''<b>'' @ name @ ''</b>'') ''Body'']"

fun flowable_ok :: "(string \<Rightarrow> bool) \<Rightarrow> flowable \<Rightarrow> bool" where
  "flowable_ok accepts (Paragraph txt style) = accepts txt"
| "flowable_ok accepts (Spacer width height) = True"

definition create_cover_letter ::
  "(string \<Rightarrow> bool) \<Rightarrow> world \<Rightarrow> string \<Rightarrow> string \<Rightarrow> string \<Rightarrow> string \<Rightarrow> string \<Rightarrow> string \<Rightarrow>
     (error + path) \<times> world" where
  "create_cover_letter accepts w name position company email phone output_filename =
     (let output_path = os_path_join OUTPUT_FOLDER output_filename;
          header = story_header name email phone
      in if \<not> list_all (flowable_ok accepts) header then (Inl ValueError, w)
         else
           let (now, w1) = datetime_now w;
               letter = story_letter name position company (strftime_date now)
           in if \<not> list_all (flowable_ok accepts) letter then (Inl ValueError, w1)
              else (case write_file w1 output_path (BuiltDoc (header @ letter)) of
                      Inl e \<Rightarrow> (Inl e, w1)
                    | Inr w2 \<Rightarrow> (Inr output_path, w2)))"

section \<open>The single-file endpoints\<close>

text \<open>
  The route functions of \<open>/api/watermark\<close>, \<open>/api/extract\<close>, \<open>/api/split\<close> and
  \<open>/api/rotate\<close>; in the source they carry the names of the methods they call, here
  the names of their routes. A request has its uploaded files and its form fields; a
  response is a JSON body and a status. \<open>secure_filename\<close> belongs to the web
  framework and is a parameter. An uploaded file is true when its name is not empty.
\<close>

record upload =
  filename :: string
  payload :: content

record request =
  req_files :: "string \<rightharpoonup> upload"
  req_form :: "string \<rightharpoonup> string"

datatype body =
    ErrorBody string
  | ExceptionBody error
  | FileBody string string
  | PreviewBody string string string
  | FilesBody string "string list"

type_synonym response = "body \<times> nat"

definition form_get :: "request \<Rightarrow> string \<Rightarrow> string \<Rightarrow> string" where
  "form_get req key dflt = (case req_form req key of None \<Rightarrow> dflt | Some v \<Rightarrow> v)"

text \<open>\<open>int(request.form.get(key, default))\<close> with an integer default.\<close>

definition form_get_int :: "request \<Rightarrow> string \<Rightarrow> int \<Rightarrow> error + int" where
  "form_get_int req key dflt =
     (case req_form req key of None \<Rightarrow> Inr dflt | Some v \<Rightarrow> py_int v)"

text \<open>\<open>file and allowed_file(file.filename)\<close>.\<close>

definition valid_upload :: "upload \<Rightarrow> error + bool" where
  "valid_upload file = (if filename file = [] then Inr False else allowed_file (filename file))"

definition api_watermark ::
  "(string \<Rightarrow> string) \<Rightarrow> world \<Rightarrow> request \<Rightarrow> response \<times> world" where
  "api_watermark secure_filename w req =
     (case req_files req ''file'' of
        None \<Rightarrow> ((ErrorBody ''No file provided'', 400), w)
      | Some file \<Rightarrow>
          let watermark_text = form_get req ''watermark_text'' ''CONFIDENTIAL'';
              output_name = form_get req ''output_name'' ''watermarked.pdf''
          in (case valid_upload file of
                Inl e \<Rightarrow> ((ExceptionBody e, 500), w)
              | Inr ok \<Rightarrow>
                  if \<not> ok then ((ErrorBody ''Valid PDF file required'', 400), w)
                  else
                    let file_path = os_path_join UPLOAD_FOLDER (secure_filename (filename file))
                    in (case write_file w file_path (payload file) of
                          Inl e \<Rightarrow> ((ExceptionBody e, 500), w)
                        | Inr w1 \<Rightarrow>
                            (case add_watermark w1 file_path watermark_text output_name of
                               (Inl e, w2) \<Rightarrow> ((ExceptionBody e, 500), w2)
                             | (Inr output_path, w2) \<Rightarrow>
                                 ((FileBody
                                     (''Watermark '' @ [CHR 0x22] @ watermark_text @ [CHR 0x22] @
                                      '' added successfully'')
                                     (os_path_basename output_path), 200), w2)))))"

definition api_extract ::
  "(string \<Rightarrow> string) \<Rightarrow> world \<Rightarrow> request \<Rightarrow> response \<times> world" where
  "api_extract secure_filename w req =
     (case req_files req ''file'' of
        None \<Rightarrow> ((ErrorBody ''No file provided'', 400), w)
      | Some file \<Rightarrow>
          (case valid_upload file of
             Inl e \<Rightarrow> ((ExceptionBody e, 500), w)
           | Inr ok \<Rightarrow>
               if \<not> ok then ((ErrorBody ''Valid PDF file required'', 400), w)
               else
                 let file_path = os_path_join UPLOAD_FOLDER (secure_filename (filename file))
                 in (case write_file w file_path (payload file) of
                       Inl e \<Rightarrow> ((ExceptionBody e, 500), w)
                     | Inr w1 \<Rightarrow>
                         (case extract_text w1 file_path of
                            (Inl e, w2) \<Rightarrow> ((ExceptionBody e, 500), w2)
                          | (Inr (output_path, preview_text), w2) \<Rightarrow>
                              ((PreviewBody ''Text extracted successfully''
                                  (os_path_basename output_path) preview_text, 200), w2)))))"

definition api_split ::
  "(string \<Rightarrow> string) \<Rightarrow> world \<Rightarrow> request \<Rightarrow> response \<times> world" where
  "api_split secure_filename w req =
     (case req_files req ''file'' of
        None \<Rightarrow> ((ErrorBody ''No file provided'', 400), w)
      | Some file \<Rightarrow>
          (case form_get_int req ''pages_per_file'' 1 of
             Inl e \<Rightarrow> ((ExceptionBody e, 500), w)
           | Inr pages_per_file \<Rightarrow>
               (case valid_upload file of
                  Inl e \<Rightarrow> ((ExceptionBody e, 500), w)
                | Inr ok \<Rightarrow>
                    if \<not> ok then ((ErrorBody ''Valid PDF file required'', 400), w)
                    else
                      let file_path =
                            os_path_join UPLOAD_FOLDER (secure_filename (filename file))
                      in (case write_file w file_path (payload file) of
                            Inl e \<Rightarrow> ((ExceptionBody e, 500), w)
                          | Inr w1 \<Rightarrow>
                              (case split_pdf w1 file_path pages_per_file of
                                 (Inl e, w2) \<Rightarrow> ((ExceptionBody e, 500), w2)
                               | (Inr output_files, w2) \<Rightarrow>
                                   ((FilesBody
                                       (''PDF split into '' @ str_nat (length output_files) @
                                        '' files'')
                                       (map os_path_basename output_files), 200), w2))))))"

definition api_rotate ::
  "(string \<Rightarrow> string) \<Rightarrow> world \<Rightarrow> request \<Rightarrow> response \<times> world" where
  "api_rotate secure_filename w req =
     (case req_files req ''file'' of
        None \<Rightarrow> ((ErrorBody ''No file provided'', 400), w)
      | Some file \<Rightarrow>
          (case form_get_int req ''angle'' 90 of
             Inl e \<Rightarrow> ((ExceptionBody e, 500), w)
           | Inr angle \<Rightarrow>
               let output_name = form_get req ''output_name'' ''rotated.pdf''
               in (case valid_upload file of
                     Inl e \<Rightarrow> ((ExceptionBody e, 500), w)
                   | Inr ok \<Rightarrow>
                       if \<not> ok then ((ErrorBody ''Valid PDF file required'', 400), w)
                       else
                         let file_path =
                               os_path_join UPLOAD_FOLDER (secure_filename (filename file))
                         in (case write_file w file_path (payload file) of
                               Inl e \<Rightarrow> ((ExceptionBody e, 500), w)
                             | Inr w1 \<Rightarrow>
                                 (case rotate_pdf w1 file_path angle output_name of
                                    (Inl e, w2) \<Rightarrow> ((ExceptionBody e, 500), w2)
                                  | (Inr output_path, w2) \<Rightarrow>
                                      ((FileBody
                                          (''PDF rotated by '' @ str_int angle @ '' degrees'')
                                          (os_path_basename output_path), 200), w2))))))"

section \<open>Vocabulary of the specification\<close>

text \<open>
  Predicates and functions that the statements below use to say what the operations
  are expected to do: two paths naming one file, a file name without directory part,
  the pages stored at a path, a staged upload, a page rotated by an angle, the chunks of
  a split and their names, and the shape of a timestamp.
\<close>

definition same_file :: "world \<Rightarrow> path \<Rightarrow> path \<Rightarrow> bool" where
  "same_file w p q = (resolve (cwd w) p = resolve (cwd w) q)"





definition rotated_by :: "int \<Rightarrow> page \<Rightarrow> page" where
  "rotated_by angle pg = pg\<lparr>rotation := rotation pg + angle\<rparr>"






definition same_second :: "datetime \<Rightarrow> datetime \<Rightarrow> bool" where
  "same_second t1 t2 =
     (dt_year t1 = dt_year t2 \<and> dt_month t1 = dt_month t2 \<and> dt_day t1 = dt_day t2 \<and>
      dt_hour t1 = dt_hour t2 \<and> dt_minute t1 = dt_minute t2 \<and> dt_second t1 = dt_second t2)"

definition is_stamp :: "string \<Rightarrow> bool" where
  "is_stamp s =
     (length s = 15 \<and> list_all is_digit (take 8 s) \<and> s ! 8 = CHR ''_'' \<and>
      list_all is_digit (drop 9 s))"

section \<open>Concrete worlds and requests\<close>

text \<open>
  Small file systems with a fixed clock, used to run the operations on concrete
  inputs.
\<close>

definition example_time :: datetime where
  "example_time = \<lparr>dt_year = 2026, dt_month = 1, dt_day = 2, dt_hour = 3, dt_minute = 4,
     dt_second = 5, dt_microsecond = 6\<rparr>"

definition example_later :: datetime where
  "example_later = example_time\<lparr>dt_microsecond := 7\<rparr>"

definition example_world :: "(path \<times> content) list \<Rightarrow> world" where
  "example_world stored =
     \<lparr>files = map_of (map (\<lambda>(p, c). (resolve [''srv''] p, c)) stored), cwd = [''srv''],
      writable = (\<lambda>p. True), clock = (\<lambda>i. example_time), tick = 0\<rparr>"

definition world_at :: "datetime \<Rightarrow> world" where
  "world_at t = (example_world [])\<lparr>clock := (\<lambda>i. t)\<rparr>"

definition accept_all :: "string \<Rightarrow> bool" where
  "accept_all txt = True"

definition text_page :: "string \<Rightarrow> page" where
  "text_page s = \<lparr>page_text = s, rotation = 0, overlays = []\<rparr>"

definition long_page :: page where
  "long_page = text_page (replicate 1000 CHR ''a'')"

definition three_pages :: "page list" where
  "three_pages = [text_page ''one'', text_page ''two'', text_page ''three'']"

definition two_pages :: "page list" where
  "two_pages = [text_page ''four'', text_page ''five'']"

definition long_world :: world where
  "long_world = example_world [(''uploads/a.pdf'', PdfDoc [long_page])]"

definition three_world :: world where
  "three_world = example_world [(''uploads/a.pdf'', PdfDoc three_pages)]"

definition ab_world :: world where
  "ab_world = example_world [(''uploads/a.pdf'', PdfDoc three_pages),
                             (''uploads/b.pdf'', PdfDoc two_pages)]"


definition garbage_world :: world where
  "garbage_world = example_world [(''uploads/a.pdf'', Garbage)]"

definition example_request :: "string \<Rightarrow> (string \<times> string) list \<Rightarrow> request" where
  "example_request name form =
     \<lparr>req_files = [''file'' \<mapsto> \<lparr>filename = name, payload = Garbage\<rparr>],
      req_form = map_of form\<rparr>"

section \<open>Validation of file names\<close>

lemma rfind_None: "(rfind c s = None) = (c \<notin> set s)"
  by (induction s) (auto split: option.splits)

lemma rfind_Some:
  "rfind c s = Some i \<Longrightarrow>
     i < length s \<and> s ! i = c \<and> c \<notin> set (drop (Suc i) s)"
proof (induction s arbitrary: i)
  case Nil
  then show ?case by simp
next
  case (Cons x xs)
  show ?case
  proof (cases "rfind c xs")
    case None
    with Cons.prems have "x = c" "i = 0"
      by (auto split: if_splits)
    moreover from None have "c \<notin> set xs"
      by (simp add: rfind_None)
    ultimately show ?thesis by simp
  next
    case (Some j)
    with Cons.prems have "i = Suc j" by simp
    with Cons.IH [OF Some] show ?thesis by simp
  qed
qed

lemma after_last_dot_drop:
  assumes "i < length s" "s ! i = CHR ''.''" "CHR ''.'' \<notin> set (drop (Suc i) s)"
  shows "after_last_dot s = drop (Suc i) s"
proof -
  have s: "s = take i s @ CHR ''.'' # drop (Suc i) s"
    using assms(1,2) by (metis id_take_nth_drop)
  have "rev s = rev (drop (Suc i) s) @ CHR ''.'' # rev (take i s)"
    by (subst s) simp
  moreover have "\<forall>c \<in> set (rev (drop (Suc i) s)). c \<noteq> CHR ''.''"
    using assms(3) by auto
  ultimately have "takeWhile (\<lambda>c. c \<noteq> CHR ''.'') (rev s) = rev (drop (Suc i) s)"
    by (simp add: takeWhile_tail takeWhile_eq_all_conv)
  then show ?thesis
    by (simp add: after_last_dot_def)
qed

lemma allowed_file_char:
  "allowed_file f = Inr (CHR ''.'' \<in> set f \<and> lower (after_last_dot f) = ''pdf'')"
proof (cases "rfind CHR ''.'' f")
  case None
  then show ?thesis
    by (simp add: allowed_file_def rfind_None)
next
  case (Some i)
  then have "CHR ''.'' \<in> set f"
    using rfind_None [of "CHR ''.''" f] by simp
  moreover from rfind_Some [OF Some] have "after_last_dot f = drop (Suc i) f"
    by (simp add: after_last_dot_drop)
  ultimately show ?thesis
    using Some
    by (simp add: allowed_file_def rsplit1_def py_index_def ALLOWED_EXTENSIONS_def)
qed

lemma valid_upload_char:
  "valid_upload file =
     Inr (CHR ''.'' \<in> set (filename file) \<and> lower (after_last_dot (filename file)) = ''pdf'')"
  by (auto simp: valid_upload_def allowed_file_char)

section \<open>Resolution of paths\<close>





section \<open>Decimal strings and timestamps\<close>

lemma digit_char_cases:
  "d < 10 \<Longrightarrow> digit_char d \<in> set ''0123456789'' \<and> digit_val (digit_char d) = d"
proof -
  assume "d < 10"
  then have "d = 0 \<or> d = 1 \<or> d = 2 \<or> d = 3 \<or> d = 4 \<or> d = 5 \<or> d = 6 \<or> d = 7 \<or> d = 8 \<or> d = 9"
    by arith
  then show ?thesis
    by (elim disjE) (simp_all add: digit_char_def digit_val_def)
qed

lemma str_nat_digits: "c \<in> set (str_nat n) \<Longrightarrow> c \<in> set ''0123456789''"
proof (induction n arbitrary: c rule: str_nat.induct)
  case (1 n)
  show ?case
  proof (cases "n < 10")
    case True
    with "1.prems" digit_char_cases [of n] show ?thesis
      by (simp add: str_nat.simps [of n])
  next
    case False
    with "1.prems" have "c \<in> set (str_nat (n div 10)) \<or> c = digit_char (n mod 10)"
      by (auto simp: str_nat.simps [of n])
    then show ?thesis
    proof
      assume m: "c \<in> set (str_nat (n div 10))"
      from "1.IH" [OF False m] show ?thesis .
    next
      assume "c = digit_char (n mod 10)"
      with digit_char_cases [of "n mod 10"] show ?thesis by simp
    qed
  qed
qed

lemma str_nat_no_underscore: "filter (\<lambda>c. c \<noteq> CHR ''_'') (str_nat n) = str_nat n"
proof -
  have "\<forall>c \<in> set (str_nat n). c \<noteq> CHR ''_''"
    using str_nat_digits [of _ n] by auto
  then show ?thesis by simp
qed

lemma digits_value_str_nat: "digits_value (str_nat n) = n"
proof (induction n rule: str_nat.induct)
  case (1 n)
  have eq: "\<And>m. digits_value (str_nat m) = foldl (\<lambda>a c. 10 * a + digit_val c) 0 (str_nat m)"
    by (simp add: digits_value_def str_nat_no_underscore)
  show ?case
  proof (cases "n < 10")
    case True
    then have "digit_val (digit_char n) = n"
      by (simp add: digit_char_cases)
    with True show ?thesis
      unfolding eq by (simp add: str_nat.simps [of n])
  next
    case False
    have "foldl (\<lambda>a c. 10 * a + digit_val c) 0 (str_nat (n div 10)) = n div 10"
      using "1.IH" [OF False] unfolding eq .
    moreover have "str_nat n = str_nat (n div 10) @ [digit_char (n mod 10)]"
      using False by (simp add: str_nat.simps [of n])
    moreover have "digit_val (digit_char (n mod 10)) = n mod 10"
      by (simp add: digit_char_cases)
    ultimately show ?thesis
      unfolding eq by simp
  qed
qed

lemma str_nat_inj:
  assumes "str_nat a = str_nat b"
  shows "a = b"
proof -
  have "a = digits_value (str_nat a)"
    by (simp only: digits_value_str_nat)
  also have "\<dots> = digits_value (str_nat b)"
    by (simp only: assms)
  also have "\<dots> = b"
    by (simp only: digits_value_str_nat)
  finally show ?thesis .
qed



lemma str_nat_length:
  "n < 10 ^ k \<Longrightarrow> 0 < k \<Longrightarrow> length (str_nat n) \<le> k"
proof (induction n arbitrary: k rule: str_nat.induct)
  case (1 n)
  show ?case
  proof (cases "n < 10")
    case True
    with "1.prems" show ?thesis
      by (simp add: str_nat.simps [of n])
  next
    case False
    obtain j where k: "k = Suc j"
      using "1.prems"(2) by (cases k) simp_all
    have j: "0 < j"
    proof (rule ccontr)
      assume "\<not> 0 < j"
      with k "1.prems"(1) False show False by simp
    qed
    have "n div 10 < 10 ^ j"
      using "1.prems"(1) k by (simp add: div_less_iff_less_mult mult.commute)
    then have "length (str_nat (n div 10)) \<le> j"
      using j by (rule "1.IH" [OF False])
    with False k show ?thesis
      by (simp add: str_nat.simps [of n])
  qed
qed

lemma str_nat_all_digits: "list_all is_digit (str_nat n)"
  using str_nat_digits [of _ n] by (auto simp: list_all_iff is_digit_def)

lemma zfill_all_digits: "list_all is_digit (zfill k (str_nat n))"
proof -
  have "is_digit CHR ''0''"
    by (simp add: is_digit_def)
  then have "list_all is_digit (replicate j CHR ''0'')" for j
    by (simp add: list_all_iff)
  then show ?thesis
    by (simp add: zfill_def str_nat_all_digits)
qed

lemma zfill_length: "length s \<le> k \<Longrightarrow> length (zfill k s) = k"
  by (simp add: zfill_def)

lemma digits_value_zfill: "digits_value (zfill k (str_nat n)) = n"
proof -
  have z: "foldl (\<lambda>a c. 10 * a + digit_val c) 0 (replicate j CHR ''0'') = 0" for j
    by (induction j) (simp_all add: digit_val_def)
  have "filter (\<lambda>c. c \<noteq> CHR ''_'') (zfill k (str_nat n)) =
          replicate (k - length (str_nat n)) CHR ''0'' @ str_nat n"
    by (simp add: zfill_def str_nat_no_underscore)
  then have "digits_value (zfill k (str_nat n)) = digits_value (str_nat n)"
    by (simp add: digits_value_def z str_nat_no_underscore)
  then show ?thesis
    by (simp add: digits_value_str_nat)
qed

lemma zfill_inj:
  assumes "zfill k (str_nat a) = zfill k (str_nat b)"
  shows "a = b"
proof -
  have "a = digits_value (zfill k (str_nat a))"
    by (simp only: digits_value_zfill)
  also have "\<dots> = digits_value (zfill k (str_nat b))"
    by (simp only: assms)
  also have "\<dots> = b"
    by (simp only: digits_value_zfill)
  finally show ?thesis .
qed

lemma str_nat_length_four:
  assumes "1000 \<le> n" and "n \<le> 9999"
  shows "length (str_nat n) = 4"
proof -
  have "length (str_nat n) \<le> 4"
    using assms(2) by (intro str_nat_length) simp_all
  moreover have "\<not> length (str_nat n) \<le> 3"
  proof
    assume a: "length (str_nat n) \<le> 3"
    have d: "\<not> n < 10" "\<not> n div 10 < 10" "\<not> n div 10 div 10 < 10"
      using assms(1) by simp_all
    have "str_nat n = str_nat (n div 10 div 10 div 10) @
            [digit_char (n div 10 div 10 mod 10), digit_char (n div 10 mod 10),
             digit_char (n mod 10)]"
      using d
      by (simp add: str_nat.simps [of n] str_nat.simps [of "n div 10"]
            str_nat.simps [of "n div 10 div 10"])
    moreover have "str_nat (n div 10 div 10 div 10) \<noteq> []"
      by (simp add: str_nat.simps [of "n div 10 div 10 div 10"])
    ultimately show False
      using a by (cases "str_nat (n div 10 div 10 div 10)") simp_all
  qed
  ultimately show ?thesis
    by simp
qed

lemma valid_datetime_lengths:
  assumes "valid_datetime t"
  shows "length (str_nat (dt_year t)) = 4"
    and "length (zfill 2 (str_nat (dt_month t))) = 2"
    and "length (zfill 2 (str_nat (dt_day t))) = 2"
    and "length (zfill 2 (str_nat (dt_hour t))) = 2"
    and "length (zfill 2 (str_nat (dt_minute t))) = 2"
    and "length (zfill 2 (str_nat (dt_second t))) = 2"
  using assms
  by (auto simp: valid_datetime_def intro!: zfill_length str_nat_length str_nat_length_four)

lemma strftime_stamp_shape:
  assumes "valid_datetime t"
  shows "is_stamp (strftime_stamp t)"
  using valid_datetime_lengths [OF assms]
  by (simp add: is_stamp_def strftime_stamp_def zfill_all_digits str_nat_all_digits nth_append)

lemma strftime_stamp_inj:
  assumes "valid_datetime t1" and "valid_datetime t2"
  shows "(strftime_stamp t1 = strftime_stamp t2) = same_second t1 t2"
proof
  assume "same_second t1 t2"
  then show "strftime_stamp t1 = strftime_stamp t2"
    by (simp add: same_second_def strftime_stamp_def)
next
  assume eq: "strftime_stamp t1 = strftime_stamp t2"
  note l1 = valid_datetime_lengths [OF assms(1)]
  note l2 = valid_datetime_lengths [OF assms(2)]
  from eq l1 l2 have
    y: "str_nat (dt_year t1) = str_nat (dt_year t2)" and
    r: "zfill 2 (str_nat (dt_month t1)) = zfill 2 (str_nat (dt_month t2))"
    "zfill 2 (str_nat (dt_day t1)) = zfill 2 (str_nat (dt_day t2))"
    "zfill 2 (str_nat (dt_hour t1)) = zfill 2 (str_nat (dt_hour t2))"
    "zfill 2 (str_nat (dt_minute t1)) = zfill 2 (str_nat (dt_minute t2))"
    "zfill 2 (str_nat (dt_second t1)) = zfill 2 (str_nat (dt_second t2))"
    by (simp_all add: strftime_stamp_def)
  from y have "dt_year t1 = dt_year t2"
    by (rule str_nat_inj)
  moreover from r have "dt_month t1 = dt_month t2" "dt_day t1 = dt_day t2"
    "dt_hour t1 = dt_hour t2" "dt_minute t1 = dt_minute t2" "dt_second t1 = dt_second t2"
    by (auto dest: zfill_inj)
  ultimately show "same_second t1 t2"
    by (simp add: same_second_def)
qed

lemma strftime_example: "strftime_stamp example_time = ''20260102_030405''"
  by (simp add: strftime_stamp_def example_time_def zfill_def str_nat.simps digit_char_def)

lemma valid_example_time: "valid_datetime example_time" "valid_datetime example_later"
  by (simp_all add: valid_datetime_def example_time_def example_later_def)

lemma generate_filename_eq:
  "generate_filename base_name extension w =
     (base_name @ ''_'' @ strftime_stamp (clock w (tick w)) @ extension,
      w\<lparr>tick := Suc (tick w)\<rparr>)"
  by (simp add: generate_filename_def datetime_now_def)

section \<open>Reading, merging and cleaning up\<close>





lemma PdfReader_Inr: "PdfReader w p = Inr pages \<Longrightarrow> file_at w p = Some (PdfDoc pages)"
  by (auto simp: PdfReader_def split: option.splits content.splits)



lemma cleanup_uploaded_eq:
  "cleanup_uploaded w fps =
     (Inr (), w\<lparr>files := (\<lambda>k. if k \<in> resolve (cwd w) ` set fps then None else files w k)\<rparr>)"
proof (induction fps arbitrary: w)
  case Nil
  then show ?case by simp
next
  case (Cons p fps)
  show ?case
  proof (cases "file_at w p")
    case None
    then have "(\<lambda>k. if k \<in> resolve (cwd w) ` set (p # fps) then None else files w k) =
               (\<lambda>k. if k \<in> resolve (cwd w) ` set fps then None else files w k)"
      by (auto simp: fun_eq_iff file_at_def)
    with None show ?thesis
      by (simp add: os_path_exists_def Cons.IH del: set_simps)
  next
    case (Some c)
    have "(\<lambda>k. if k \<in> resolve (cwd w) ` set fps then None
               else ((files w)(resolve (cwd w) p := None)) k) =
          (\<lambda>k. if k \<in> resolve (cwd w) ` set (p # fps) then None else files w k)"
      by (auto simp: fun_eq_iff)
    with Some show ?thesis
      by (simp add: os_path_exists_def os_remove_def Cons.IH del: set_simps fun_upd_apply
          cong: if_cong)
  qed
qed


lemma merge_pdfs_Inr:
  assumes "merge_pdfs w fps out = (Inr r, w')"
  shows "r = os_path_join OUTPUT_FOLDER out \<and> cwd w' = cwd w \<and>
         (\<forall>p \<in> set fps. file_at w' p = None)"
  using assms
  by (auto simp: merge_pdfs_def write_file_def cleanup_uploaded_eq Let_def file_at_def
      split: sum.splits if_splits)

lemma merge_pdfs_Inl:
  assumes "merge_pdfs w fps out = (Inl e, w')"
  shows "w' = w"
  using assms
  by (auto simp: merge_pdfs_def write_file_def cleanup_uploaded_eq Let_def
      split: sum.splits if_splits)


section \<open>What each operation leaves of its input\<close>

lemma add_watermark_fate:
  assumes "add_watermark w p t out = (r, w')"
  shows "(isl r \<longrightarrow> w' = w) \<and>
         (\<not> isl r \<longrightarrow> file_at w' p = None \<and> r = Inr (os_path_join OUTPUT_FOLDER out))"
  using assms
  by (auto simp: add_watermark_def write_file_def os_remove_def os_path_exists_def file_at_def
        Let_def
      dest: PdfReader_Inr split: sum.splits if_splits)

lemma rotate_pdf_fate:
  assumes "rotate_pdf w p a out = (r, w')"
  shows "(isl r \<longrightarrow> w' = w) \<and>
         (\<not> isl r \<longrightarrow> file_at w' p = None \<and> r = Inr (os_path_join OUTPUT_FOLDER out))"
  using assms
  by (auto simp: rotate_pdf_def write_file_def os_remove_def os_path_exists_def file_at_def
        Let_def
      dest: PdfReader_Inr split: sum.splits if_splits)

lemma extract_text_fate:
  assumes "extract_text w p = (r, w')"
  shows "(isl r \<longrightarrow> files w' = files w \<and> cwd w' = cwd w) \<and>
         (\<not> isl r \<longrightarrow> file_at w' p = None)"
  using assms
  by (auto simp: extract_text_def generate_filename_def datetime_now_def write_file_def
        os_remove_def os_path_exists_def file_at_def Let_def
      dest: PdfReader_Inr split: sum.splits if_splits prod.splits)

lemma extract_text_Inr:
  assumes "extract_text w pdf_path = (Inr (output_path, preview_text), w')"
  shows "\<exists>pages. file_at w pdf_path = Some (PdfDoc pages) \<and>
           preview_text = preview (full_text pages) \<and>
           output_path = os_path_join OUTPUT_FOLDER
             (''extracted_text_'' @ strftime_stamp (clock w (tick w)) @ ''.txt'') \<and>
           cwd w' = cwd w \<and>
           files w' = ((files w)(resolve (cwd w) output_path \<mapsto> TextDoc (full_text pages)))
                        (resolve (cwd w) pdf_path := None)"
  using assms
  by (auto simp: extract_text_def PdfReader_def generate_filename_def datetime_now_def
        write_file_def os_remove_def os_path_exists_def file_at_def Let_def
      split: option.splits content.splits sum.splits if_splits prod.splits)

lemma split_loop_exists:
  "os_path_exists w q \<Longrightarrow> os_path_exists (snd (split_loop w pages k starts outs)) q"
proof (induction starts arbitrary: w outs)
  case Nil
  then show ?case by simp
next
  case (Cons s starts)
  define e where "e = min (s + k) (int (length pages))"
  define nm where "nm = fst (generate_filename
      (''split_pages_'' @ str_int (s + 1) @ ''-'' @ str_int e) ''.pdf'' w)"
  define w1 where "w1 = w\<lparr>tick := Suc (tick w)\<rparr>"
  have g: "generate_filename (''split_pages_'' @ str_int (s + 1) @ ''-'' @ str_int e) ''.pdf'' w
             = (nm, w1)"
    by (simp add: nm_def w1_def generate_filename_def datetime_now_def)
  have q1: "os_path_exists w1 q"
    using Cons.prems by (simp add: w1_def os_path_exists_def file_at_def)
  show ?case
  proof (cases "add_pages pages (py_range2 s e) []")
    case (Inl err)
    with Cons.prems show ?thesis
      by (simp add: e_def Let_def)
  next
    case (Inr written)
    show ?thesis
    proof (cases "writable w1 (os_path_join OUTPUT_FOLDER nm)")
      case False
      with Inr g q1 show ?thesis
        by (simp add: e_def [symmetric] Let_def write_file_def)
    next
      case True
      have "os_path_exists
              (w1\<lparr>files := (files w1)(resolve (cwd w1) (os_path_join OUTPUT_FOLDER nm) \<mapsto>
                                PdfDoc written)\<rparr>) q"
        using q1 by (simp add: os_path_exists_def file_at_def)
      from Cons.IH [OF this] True Inr g show ?thesis
        by (simp add: e_def [symmetric] Let_def write_file_def)
    qed
  qed
qed

lemma split_pdf_fate:
  assumes "split_pdf w p k = (r, w')" and "os_path_exists w p"
  shows "isl r = os_path_exists w' p"
proof (cases "PdfReader w p")
  case (Inl e)
  with assms show ?thesis by (auto simp: split_pdf_def)
next
  case (Inr pages)
  note pages = this
  show ?thesis
  proof (cases "py_range3 0 (int (length pages)) k")
    case (Inl e)
    with assms pages show ?thesis by (auto simp: split_pdf_def)
  next
    case (Inr starts)
    obtain r1 w1 where l: "split_loop w pages k starts [] = (r1, w1)"
      by (cases "split_loop w pages k starts []")
    have ex: "os_path_exists w1 p"
      using split_loop_exists [OF assms(2), of pages k starts "[]"] l by simp
    show ?thesis
    proof (cases r1)
      case (Inl e)
      with assms(1) pages Inr l ex show ?thesis
        by (auto simp: split_pdf_def)
    next
      case (Inr outs)
      with assms(1) pages \<open>py_range3 0 (int (length pages)) k = Inr starts\<close> l ex show ?thesis
        by (auto simp: split_pdf_def os_remove_def os_path_exists_def file_at_def
            split: if_splits)
    qed
  qed
qed

lemma create_cover_letter_Inr:
  "create_cover_letter accepts w name position company email phone output_filename =
     (Inr out, w') \<Longrightarrow>
   out = os_path_join OUTPUT_FOLDER output_filename"
  by (auto simp: create_cover_letter_def datetime_now_def write_file_def Let_def
      split: if_splits)

section \<open>Rotation\<close>

lemma rotate_pages_ok:
  "angle mod 90 = 0 \<Longrightarrow>
   rotate_pages angle pages acc = Inr (acc @ map (rotated_by angle) pages)"
  by (induction pages arbitrary: acc) (simp_all add: rotate_page_def rotated_by_def)


section \<open>The split loop\<close>





















lemma split_loop_names:
  "split_loop w pages k starts outs = (Inr outs', w') \<Longrightarrow>
   \<exists>new. outs' = outs @ new \<and> length new = length starts \<and>
     (\<forall>i<length new. \<exists>a b. new ! i =
        os_path_join OUTPUT_FOLDER
          (''split_pages_'' @ str_int a @ ''-'' @ str_int b @ ''_'' @
           strftime_stamp (clock w (tick w + i)) @ ''.pdf''))"
proof (induction starts arbitrary: w outs)
  case Nil
  then show ?case by simp
next
  case (Cons s starts)
  define e where "e = min (s + k) (int (length pages))"
  define nm where "nm = ''split_pages_'' @ str_int (s + 1) @ ''-'' @ str_int e @ ''_'' @
           strftime_stamp (clock w (tick w)) @ ''.pdf''"
  define w1 where "w1 = w\<lparr>tick := Suc (tick w)\<rparr>"
  have g: "generate_filename (''split_pages_'' @ str_int (s + 1) @ ''-'' @ str_int e) ''.pdf'' w
             = (nm, w1)"
    by (simp add: nm_def w1_def generate_filename_def datetime_now_def)
  show ?case
  proof (cases "add_pages pages (py_range2 s e) []")
    case (Inl err)
    with Cons.prems show ?thesis
      by (simp add: e_def Let_def)
  next
    case (Inr written)
    show ?thesis
    proof (cases "writable w1 (os_path_join OUTPUT_FOLDER nm)")
      case False
      with Inr g Cons.prems show ?thesis
        by (simp add: e_def [symmetric] Let_def write_file_def)
    next
      case True
      define w2 where
        "w2 = w1\<lparr>files := (files w1)(resolve (cwd w1) (os_path_join OUTPUT_FOLDER nm) \<mapsto>
                               PdfDoc written)\<rparr>"
      have "split_loop w2 pages k starts (outs @ [os_path_join OUTPUT_FOLDER nm]) = (Inr outs', w')"
        using Cons.prems True Inr g
        by (simp add: e_def [symmetric] Let_def write_file_def w2_def)
      from Cons.IH [OF this] obtain new where
        new: "outs' = (outs @ [os_path_join OUTPUT_FOLDER nm]) @ new"
          "length new = length starts"
          "\<forall>i<length new. \<exists>a b. new ! i =
              os_path_join OUTPUT_FOLDER
                (''split_pages_'' @ str_int a @ ''-'' @ str_int b @ ''_'' @
                 strftime_stamp (clock w2 (tick w2 + i)) @ ''.pdf'')"
        by blast
      have ct: "clock w2 = clock w" "tick w2 = Suc (tick w)"
        by (simp_all add: w2_def w1_def)
      let ?new = "os_path_join OUTPUT_FOLDER nm # new"
      have "\<exists>a b. ?new ! i =
              os_path_join OUTPUT_FOLDER
                (''split_pages_'' @ str_int a @ ''-'' @ str_int b @ ''_'' @
                 strftime_stamp (clock w (tick w + i)) @ ''.pdf'')" if "i < length ?new" for i
      proof (cases i)
        case 0
        then show ?thesis
          by (auto simp: nm_def)
      next
        case (Suc j)
        with that new(3) have "\<exists>a b. new ! j =
              os_path_join OUTPUT_FOLDER
                (''split_pages_'' @ str_int a @ ''-'' @ str_int b @ ''_'' @
                 strftime_stamp (clock w2 (tick w2 + j)) @ ''.pdf'')"
          by simp
        with Suc show ?thesis
          by (simp add: ct)
      qed
      with new(1,2) show ?thesis
        by (intro exI [of _ ?new]) simp
    qed
  qed
qed

lemma split_pdf_names:
  assumes "split_pdf w pdf_path k = (Inr outs, w')"
  shows "\<forall>i<length outs. \<exists>a b. outs ! i =
        os_path_join OUTPUT_FOLDER
          (''split_pages_'' @ str_int a @ ''-'' @ str_int b @ ''_'' @
           strftime_stamp (clock w (tick w + i)) @ ''.pdf'')"
proof -
  from assms obtain pages starts w1 where
    "split_loop w pages k starts [] = (Inr outs, w1)"
    by (auto simp: split_pdf_def split: sum.splits prod.splits)
  from split_loop_names [OF this] show ?thesis
    by simp
qed

section \<open>Runs on the concrete worlds\<close>

lemma full_text_long_page:
  "full_text [long_page] =
     ''--- Page 1 ---'' @ [CHR 0x0A] @ replicate 1000 CHR ''a'' @ [CHR 0x0A]"
  by (simp add: full_text_def text_content_def enumerate1_def long_page_def text_page_def
        str_nat.simps digit_char_def)

lemma extract_long_run:
  "fst (extract_text long_world ''uploads/a.pdf'') =
     Inr (''outputs/extracted_text_20260102_030405.txt'',
          take 1000 (full_text [long_page]) @ ''...'')"
  by (simp add: extract_text_def PdfReader_def long_world_def example_world_def
        generate_filename_def datetime_now_def strftime_example write_file_def os_remove_def
        os_path_exists_def file_at_def resolve_def split_path_def os_path_join_def
        OUTPUT_FOLDER_def preview_def full_text_long_page Let_def)

lemma ab_world_exists:
  "os_path_exists ab_world ''uploads/a.pdf''" "os_path_exists ab_world ''uploads/b.pdf''"
  by (simp_all add: ab_world_def example_world_def os_path_exists_def file_at_def resolve_def
        split_path_def)




lemma split_three_run:
  "fst (split_pdf three_world ''uploads/a.pdf'' 2) =
     Inr [''outputs/split_pages_1-2_20260102_030405.pdf'',
          ''outputs/split_pages_3-3_20260102_030405.pdf'']"
  by (simp add: split_pdf_def PdfReader_def py_range3_def py_range2_def py_index_def
        generate_filename_def datetime_now_def write_file_def os_remove_def os_path_exists_def
        file_at_def resolve_def split_path_def
        strftime_example str_int_def str_nat.simps digit_char_def Let_def three_world_def
        example_world_def three_pages_def OUTPUT_FOLDER_def os_path_join_def upt_conv_Cons)

lemma split_three_pair:
  "split_pdf three_world ''uploads/a.pdf'' 2 =
     (Inr [''outputs/split_pages_1-2_20260102_030405.pdf'',
           ''outputs/split_pages_3-3_20260102_030405.pdf''],
      snd (split_pdf three_world ''uploads/a.pdf'' 2))"
  using split_three_run by (simp add: prod_eq_iff)




lemma three_world_runs:
  "extract_text three_world ''uploads/a.pdf'' =
     (Inr (''outputs/extracted_text_20260102_030405.txt'', full_text three_pages),
      snd (extract_text three_world ''uploads/a.pdf''))"
  "merge_pdfs three_world [''uploads/a.pdf''] ''m.pdf'' =
     (Inr ''outputs/m.pdf'', snd (merge_pdfs three_world [''uploads/a.pdf''] ''m.pdf''))"
  "add_watermark three_world ''uploads/a.pdf'' ''draft'' ''m.pdf'' =
     (Inr ''outputs/m.pdf'', snd (add_watermark three_world ''uploads/a.pdf'' ''draft'' ''m.pdf''))"
  "rotate_pdf three_world ''uploads/a.pdf'' 90 ''m.pdf'' =
     (Inr ''outputs/m.pdf'', snd (rotate_pdf three_world ''uploads/a.pdf'' 90 ''m.pdf''))"
  "create_cover_letter accept_all three_world ''Jane Doe'' ''Engineer'' ''Acme'' [] [] ''m.pdf'' =
     (Inr ''outputs/m.pdf'',
      snd (create_cover_letter accept_all three_world ''Jane Doe'' ''Engineer'' ''Acme'' [] []
             ''m.pdf''))"
proof -
  have ft: "length (full_text three_pages) \<le> 1000"
    by (simp add: full_text_def text_content_def enumerate1_def three_pages_def text_page_def
          str_nat.simps digit_char_def upt_conv_Cons)
  show "extract_text three_world ''uploads/a.pdf'' =
     (Inr (''outputs/extracted_text_20260102_030405.txt'', full_text three_pages),
      snd (extract_text three_world ''uploads/a.pdf''))"
    using ft
    by (simp add: prod_eq_iff extract_text_def PdfReader_def three_world_def example_world_def
        generate_filename_def datetime_now_def strftime_example write_file_def os_remove_def
        os_path_exists_def file_at_def resolve_def split_path_def os_path_join_def
        OUTPUT_FOLDER_def preview_def Let_def)
  show "merge_pdfs three_world [''uploads/a.pdf''] ''m.pdf'' =
     (Inr ''outputs/m.pdf'', snd (merge_pdfs three_world [''uploads/a.pdf''] ''m.pdf''))"
    by (simp add: prod_eq_iff merge_pdfs_def PdfReader_def write_file_def os_remove_def
        os_path_exists_def file_at_def resolve_def split_path_def Let_def three_world_def
        example_world_def OUTPUT_FOLDER_def os_path_join_def split: prod.splits)
  show "add_watermark three_world ''uploads/a.pdf'' ''draft'' ''m.pdf'' =
     (Inr ''outputs/m.pdf'', snd (add_watermark three_world ''uploads/a.pdf'' ''draft'' ''m.pdf''))"
    by (simp add: prod_eq_iff add_watermark_def PdfReader_def write_file_def os_remove_def
        os_path_exists_def file_at_def resolve_def split_path_def Let_def three_world_def
        example_world_def OUTPUT_FOLDER_def os_path_join_def)
  show "rotate_pdf three_world ''uploads/a.pdf'' 90 ''m.pdf'' =
     (Inr ''outputs/m.pdf'', snd (rotate_pdf three_world ''uploads/a.pdf'' 90 ''m.pdf''))"
    by (simp add: prod_eq_iff rotate_pdf_def PdfReader_def rotate_pages_ok write_file_def
        os_remove_def os_path_exists_def file_at_def resolve_def split_path_def Let_def
        three_world_def example_world_def OUTPUT_FOLDER_def os_path_join_def)
  show "create_cover_letter accept_all three_world ''Jane Doe'' ''Engineer'' ''Acme'' [] [] ''m.pdf'' =
     (Inr ''outputs/m.pdf'',
      snd (create_cover_letter accept_all three_world ''Jane Doe'' ''Engineer'' ''Acme'' [] []
             ''m.pdf''))"
    by (simp add: prod_eq_iff create_cover_letter_def story_header_def story_letter_def
        accept_all_def datetime_now_def write_file_def Let_def list_all_iff
        three_world_def example_world_def OUTPUT_FOLDER_def os_path_join_def)
qed

section \<open>The claims\<close>

subsection \<open>Extraction preview\<close>

text \<open>
  C1, as the code has it: when extraction succeeds, the returned preview is the full
  extracted text if that has at most 1000 characters, and otherwise its first 1000
  characters followed by the three characters \<open>...\<close>. The full text is what the
  operation writes to its artifact.
\<close>

theorem extract_preview_ellipsis:
  assumes "extract_text w pdf_path = (Inr (output_path, preview_text), w')"
  shows "\<exists>pages. file_at w pdf_path = Some (PdfDoc pages) \<and>
           (1000 < length (full_text pages) \<longrightarrow>
              preview_text = take 1000 (full_text pages) @ ''...'') \<and>
           (length (full_text pages) \<le> 1000 \<longrightarrow> preview_text = full_text pages) \<and>
           (\<not> same_file w output_path pdf_path \<longrightarrow>
              file_at w' output_path = Some (TextDoc (full_text pages)))"
proof -
  from extract_text_Inr [OF assms] obtain pages where
    p: "file_at w pdf_path = Some (PdfDoc pages)"
       "preview_text = preview (full_text pages)"
       "cwd w' = cwd w"
       "files w' = ((files w)(resolve (cwd w) output_path \<mapsto> TextDoc (full_text pages)))
                     (resolve (cwd w) pdf_path := None)"
    by blast
  show ?thesis
    using p by (intro exI [of _ pages]) (simp add: preview_def file_at_def same_file_def)
qed

text \<open>The theorem on a page of 1000 characters, whose full text is longer than 1000.\<close>

theorem extract_preview_ellipsis_witness:
  "extract_text long_world ''uploads/a.pdf'' =
     (Inr (''outputs/extracted_text_20260102_030405.txt'',
           take 1000 (full_text [long_page]) @ ''...''),
      snd (extract_text long_world ''uploads/a.pdf'')) \<and>
   (\<exists>pages. file_at long_world ''uploads/a.pdf'' = Some (PdfDoc pages) \<and>
           (1000 < length (full_text pages) \<longrightarrow>
              take 1000 (full_text [long_page]) @ ''...'' =
                take 1000 (full_text pages) @ ''...'') \<and>
           (length (full_text pages) \<le> 1000 \<longrightarrow>
              take 1000 (full_text [long_page]) @ ''...'' = full_text pages) \<and>
           (\<not> same_file long_world ''outputs/extracted_text_20260102_030405.txt''
                 ''uploads/a.pdf'' \<longrightarrow>
              file_at (snd (extract_text long_world ''uploads/a.pdf''))
                ''outputs/extracted_text_20260102_030405.txt'' =
              Some (TextDoc (full_text pages))))"
proof -
  have h: "extract_text long_world ''uploads/a.pdf'' =
     (Inr (''outputs/extracted_text_20260102_030405.txt'',
           take 1000 (full_text [long_page]) @ ''...''),
      snd (extract_text long_world ''uploads/a.pdf''))"
    using extract_long_run by (simp add: prod_eq_iff)
  from h extract_preview_ellipsis [OF h] show ?thesis
    by (rule conjI)
qed

text \<open>On that document the preview is not the first 1000 characters of the full text.\<close>

theorem extract_preview_counterexample:
  "fst (extract_text long_world ''uploads/a.pdf'') =
     Inr (''outputs/extracted_text_20260102_030405.txt'',
          take 1000 (full_text [long_page]) @ ''...'') \<and>
   1000 < length (full_text [long_page]) \<and>
   take 1000 (full_text [long_page]) @ ''...'' \<noteq> take 1000 (full_text [long_page])"
  by (simp add: extract_long_run full_text_long_page)

subsection \<open>Cleanup of the staged input\<close>

text \<open>
  C2, as the code has it: for watermark, extract, split and rotate, a staged input that
  exists before the operation exists afterwards exactly when the operation failed; it
  is deleted on success and left in place on failure. The same holds for every existing
  input of merge.
\<close>

theorem input_deleted_iff_success:
  "(os_path_exists w pdf_path \<longrightarrow>
      os_path_exists (snd (add_watermark w pdf_path watermark_text output_filename)) pdf_path =
        isl (fst (add_watermark w pdf_path watermark_text output_filename)) \<and>
      os_path_exists (snd (extract_text w pdf_path)) pdf_path =
        isl (fst (extract_text w pdf_path)) \<and>
      os_path_exists (snd (split_pdf w pdf_path pages_per_file)) pdf_path =
        isl (fst (split_pdf w pdf_path pages_per_file)) \<and>
      os_path_exists (snd (rotate_pdf w pdf_path angle output_filename)) pdf_path =
        isl (fst (rotate_pdf w pdf_path angle output_filename))) \<and>
   (\<forall>p \<in> set file_paths. os_path_exists w p \<longrightarrow>
      os_path_exists (snd (merge_pdfs w file_paths output_filename)) p =
        isl (fst (merge_pdfs w file_paths output_filename)))"
proof (intro conjI impI ballI)
  assume ex: "os_path_exists w pdf_path"
  show "os_path_exists (snd (add_watermark w pdf_path watermark_text output_filename)) pdf_path =
        isl (fst (add_watermark w pdf_path watermark_text output_filename))"
    using add_watermark_fate [OF surjective_pairing, of w pdf_path watermark_text output_filename] ex
    by (auto simp: os_path_exists_def)
  show "os_path_exists (snd (extract_text w pdf_path)) pdf_path =
        isl (fst (extract_text w pdf_path))"
    using extract_text_fate [OF surjective_pairing, of w pdf_path] ex
    by (auto simp: os_path_exists_def file_at_def)
  show "os_path_exists (snd (split_pdf w pdf_path pages_per_file)) pdf_path =
        isl (fst (split_pdf w pdf_path pages_per_file))"
    using split_pdf_fate [OF surjective_pairing ex] by simp
  show "os_path_exists (snd (rotate_pdf w pdf_path angle output_filename)) pdf_path =
        isl (fst (rotate_pdf w pdf_path angle output_filename))"
    using rotate_pdf_fate [OF surjective_pairing, of w pdf_path angle output_filename] ex
    by (auto simp: os_path_exists_def)
next
  fix p assume p: "p \<in> set file_paths" "os_path_exists w p"
  obtain r w' where m: "merge_pdfs w file_paths output_filename = (r, w')"
    by (cases "merge_pdfs w file_paths output_filename")
  show "os_path_exists (snd (merge_pdfs w file_paths output_filename)) p =
        isl (fst (merge_pdfs w file_paths output_filename))"
  proof (cases r)
    case (Inl e)
    with m merge_pdfs_Inl [of w file_paths output_filename e w'] p show ?thesis
      by simp
  next
    case (Inr out)
    with m merge_pdfs_Inr [of w file_paths output_filename out w'] p show ?thesis
      by (simp add: os_path_exists_def)
  qed
qed

text \<open>The theorem on a staging area with two PDF files.\<close>

theorem input_deleted_iff_success_witness:
  "os_path_exists ab_world ''uploads/a.pdf'' \<and>
   (os_path_exists (snd (add_watermark ab_world ''uploads/a.pdf'' ''draft'' ''out.pdf''))
        ''uploads/a.pdf'' =
      isl (fst (add_watermark ab_world ''uploads/a.pdf'' ''draft'' ''out.pdf'')) \<and>
    os_path_exists (snd (extract_text ab_world ''uploads/a.pdf'')) ''uploads/a.pdf'' =
      isl (fst (extract_text ab_world ''uploads/a.pdf'')) \<and>
    os_path_exists (snd (split_pdf ab_world ''uploads/a.pdf'' 2)) ''uploads/a.pdf'' =
      isl (fst (split_pdf ab_world ''uploads/a.pdf'' 2)) \<and>
    os_path_exists (snd (rotate_pdf ab_world ''uploads/a.pdf'' 90 ''out.pdf'')) ''uploads/a.pdf'' =
      isl (fst (rotate_pdf ab_world ''uploads/a.pdf'' 90 ''out.pdf''))) \<and>
   ''uploads/b.pdf'' \<in> set [''uploads/a.pdf'', ''uploads/b.pdf''] \<and>
   os_path_exists ab_world ''uploads/b.pdf'' \<and>
   os_path_exists
     (snd (merge_pdfs ab_world [''uploads/a.pdf'', ''uploads/b.pdf''] ''out.pdf''))
     ''uploads/b.pdf'' =
   isl (fst (merge_pdfs ab_world [''uploads/a.pdf'', ''uploads/b.pdf''] ''out.pdf''))"
proof -
  note t = input_deleted_iff_success [where w = ab_world and pdf_path = "''uploads/a.pdf''"
      and watermark_text = "''draft''" and output_filename = "''out.pdf''"
      and pages_per_file = 2 and angle = 90
      and file_paths = "[''uploads/a.pdf'', ''uploads/b.pdf'']"]
  have m: "''uploads/b.pdf'' \<in> set [''uploads/a.pdf'', ''uploads/b.pdf'']"
    by simp
  from t ab_world_exists m show ?thesis
    by blast
qed

text \<open>A staged file that is no PDF: the watermark fails and the file is still staged.\<close>

theorem staged_input_survives_failure:
  "fst (add_watermark garbage_world ''uploads/a.pdf'' ''draft'' ''out.pdf'') = Inl PdfReadError \<and>
   os_path_exists (snd (add_watermark garbage_world ''uploads/a.pdf'' ''draft'' ''out.pdf''))
     ''uploads/a.pdf''"
  by (simp add: add_watermark_def PdfReader_def garbage_world_def example_world_def
        os_path_exists_def file_at_def resolve_def split_path_def)

subsection \<open>Missing inputs\<close>




subsection \<open>Merge\<close>




subsection \<open>Split\<close>



subsection \<open>Split and merge\<close>




subsection \<open>Rotation\<close>




subsection \<open>Uploads that are no PDF\<close>

text \<open>
  C8, as the code has it: for an upload whose name has no \<open>pdf\<close> extension, the
  watermark and extract endpoints answer 400 with \<open>Valid PDF file required\<close>; the
  split and rotate endpoints do so when their numeric form field is absent or parses
  as an integer, and answer 500 with the parse error otherwise. In every case the world,
  and so the staging area, is unchanged.
\<close>

theorem non_pdf_upload_rejected:
  assumes "req_files req ''file'' = Some file"
    and "\<not> (CHR ''.'' \<in> set (filename file) \<and> lower (after_last_dot (filename file)) = ''pdf'')"
  shows "api_watermark secure_filename w req = ((ErrorBody ''Valid PDF file required'', 400), w) \<and>
         api_extract secure_filename w req = ((ErrorBody ''Valid PDF file required'', 400), w) \<and>
         api_split secure_filename w req =
           (case form_get_int req ''pages_per_file'' 1 of
              Inr n \<Rightarrow> ((ErrorBody ''Valid PDF file required'', 400), w)
            | Inl e \<Rightarrow> ((ExceptionBody e, 500), w)) \<and>
         api_rotate secure_filename w req =
           (case form_get_int req ''angle'' 90 of
              Inr n \<Rightarrow> ((ErrorBody ''Valid PDF file required'', 400), w)
            | Inl e \<Rightarrow> ((ExceptionBody e, 500), w))"
proof -
  have v: "valid_upload file = Inr False"
    using assms(2) by (simp add: valid_upload_char)
  show ?thesis
    using assms(1) v
    by (simp add: api_watermark_def api_extract_def api_split_def api_rotate_def Let_def
          split: sum.splits)
qed

text \<open>The theorem on an upload named \<open>notes.txt\<close>.\<close>

theorem non_pdf_upload_rejected_witness:
  "(req_files (example_request ''notes.txt'' [(''pages_per_file'', ''2'')]) ''file'' = Some \<lparr>filename = ''notes.txt'', payload = Garbage\<rparr>) \<and>
   (\<not> (CHR ''.'' \<in> set (filename \<lparr>filename = ''notes.txt'', payload = Garbage\<rparr>) \<and> lower (after_last_dot (filename \<lparr>filename = ''notes.txt'', payload = Garbage\<rparr>)) = ''pdf'')) \<and>
   (api_watermark id three_world (example_request ''notes.txt'' [(''pages_per_file'', ''2'')]) = ((ErrorBody ''Valid PDF file required'', 400), three_world) \<and>
         api_extract id three_world (example_request ''notes.txt'' [(''pages_per_file'', ''2'')]) = ((ErrorBody ''Valid PDF file required'', 400), three_world) \<and>
         api_split id three_world (example_request ''notes.txt'' [(''pages_per_file'', ''2'')]) =
           (case form_get_int (example_request ''notes.txt'' [(''pages_per_file'', ''2'')]) ''pages_per_file'' 1 of
              Inr n \<Rightarrow> ((ErrorBody ''Valid PDF file required'', 400), three_world)
            | Inl e \<Rightarrow> ((ExceptionBody e, 500), three_world)) \<and>
         api_rotate id three_world (example_request ''notes.txt'' [(''pages_per_file'', ''2'')]) =
           (case form_get_int (example_request ''notes.txt'' [(''pages_per_file'', ''2'')]) ''angle'' 90 of
              Inr n \<Rightarrow> ((ErrorBody ''Valid PDF file required'', 400), three_world)
            | Inl e \<Rightarrow> ((ExceptionBody e, 500), three_world)))"
proof -
  have h1: "req_files (example_request ''notes.txt'' [(''pages_per_file'', ''2'')]) ''file'' = Some \<lparr>filename = ''notes.txt'', payload = Garbage\<rparr>"
    by (simp add: example_request_def)
  have h2: "\<not> (CHR ''.'' \<in> set (filename \<lparr>filename = ''notes.txt'', payload = Garbage\<rparr>) \<and> lower (after_last_dot (filename \<lparr>filename = ''notes.txt'', payload = Garbage\<rparr>)) = ''pdf'')"
    by (simp add: after_last_dot_def lower_def lower_char_def)
  have c: "api_watermark id three_world (example_request ''notes.txt'' [(''pages_per_file'', ''2'')]) = ((ErrorBody ''Valid PDF file required'', 400), three_world) \<and>
         api_extract id three_world (example_request ''notes.txt'' [(''pages_per_file'', ''2'')]) = ((ErrorBody ''Valid PDF file required'', 400), three_world) \<and>
         api_split id three_world (example_request ''notes.txt'' [(''pages_per_file'', ''2'')]) =
           (case form_get_int (example_request ''notes.txt'' [(''pages_per_file'', ''2'')]) ''pages_per_file'' 1 of
              Inr n \<Rightarrow> ((ErrorBody ''Valid PDF file required'', 400), three_world)
            | Inl e \<Rightarrow> ((ExceptionBody e, 500), three_world)) \<and>
         api_rotate id three_world (example_request ''notes.txt'' [(''pages_per_file'', ''2'')]) =
           (case form_get_int (example_request ''notes.txt'' [(''pages_per_file'', ''2'')]) ''angle'' 90 of
              Inr n \<Rightarrow> ((ErrorBody ''Valid PDF file required'', 400), three_world)
            | Inl e \<Rightarrow> ((ExceptionBody e, 500), three_world))"
    by (rule non_pdf_upload_rejected [OF h1 h2])
  show ?thesis
    by (rule conjI [OF h1 conjI [OF h2 c]])
qed

text \<open>With a number that does not parse, the split endpoint answers 500, not 400.\<close>

theorem non_pdf_upload_bad_number:
  "allowed_file ''notes.txt'' = Inr False \<and>
   fst (api_split id three_world (example_request ''notes.txt'' [(''pages_per_file'', ''two'')])) =
     (ExceptionBody ValueError, 500)"
  by (simp add: allowed_file_char after_last_dot_def lower_def lower_char_def
        api_split_def example_request_def form_get_int_def py_int_def strip_def
        is_space_def is_space_ascii_def is_space_unicode_def is_ascii_def
        parse_digits_def is_digit_def)

subsection \<open>Names of the artifacts\<close>

text \<open>
  C9, as the code has it: a generated name is the base, an underscore, the timestamp
  \<open>YYYYMMDD_HHMMSS\<close> of the clock reading and the extension; extract and split always
  write to such names in the output folder, while merge, watermark, rotate and
  cover-letter write to the given output name joined to the output folder. Two
  generated names with the same base and extension are equal exactly when their clock
  readings agree to the second.
\<close>

theorem generated_names_timestamped:
  "fst (generate_filename base_name extension w) =
     base_name @ ''_'' @ strftime_stamp (clock w (tick w)) @ extension \<and>
   (valid_datetime t \<longrightarrow> is_stamp (strftime_stamp t)) \<and>
   (\<forall>out pv w'. extract_text w pdf_path = (Inr (out, pv), w') \<longrightarrow>
      out = os_path_join OUTPUT_FOLDER
              (''extracted_text'' @ ''_'' @ strftime_stamp (clock w (tick w)) @ ''.txt'')) \<and>
   (\<forall>outs w'. split_pdf w pdf_path pages_per_file = (Inr outs, w') \<longrightarrow>
      (\<forall>i<length outs. \<exists>a b. outs ! i =
         os_path_join OUTPUT_FOLDER
           ((''split_pages_'' @ str_int a @ ''-'' @ str_int b) @ ''_'' @
            strftime_stamp (clock w (tick w + i)) @ ''.pdf''))) \<and>
   (\<forall>out w'. merge_pdfs w file_paths output_filename = (Inr out, w') \<longrightarrow>
      out = os_path_join OUTPUT_FOLDER output_filename) \<and>
   (\<forall>out w'. add_watermark w pdf_path watermark_text output_filename = (Inr out, w') \<longrightarrow>
      out = os_path_join OUTPUT_FOLDER output_filename) \<and>
   (\<forall>out w'. rotate_pdf w pdf_path angle output_filename = (Inr out, w') \<longrightarrow>
      out = os_path_join OUTPUT_FOLDER output_filename) \<and>
   (\<forall>out w'. create_cover_letter accepts w name position company email phone output_filename =
        (Inr out, w') \<longrightarrow>
      out = os_path_join OUTPUT_FOLDER output_filename) \<and>
   (valid_datetime t1 \<and> valid_datetime t2 \<longrightarrow>
      (base_name @ ''_'' @ strftime_stamp t1 @ extension =
       base_name @ ''_'' @ strftime_stamp t2 @ extension) = same_second t1 t2)"
proof (intro conjI allI impI)
  show "fst (generate_filename base_name extension w) =
     base_name @ ''_'' @ strftime_stamp (clock w (tick w)) @ extension"
    by (simp add: generate_filename_eq)
next
  assume "valid_datetime t"
  then show "is_stamp (strftime_stamp t)"
    by (rule strftime_stamp_shape)
next
  fix out pv w'
  assume "extract_text w pdf_path = (Inr (out, pv), w')"
  from extract_text_Inr [OF this] show "out = os_path_join OUTPUT_FOLDER
              (''extracted_text'' @ ''_'' @ strftime_stamp (clock w (tick w)) @ ''.txt'')"
    by auto
next
  fix outs w' i
  assume "split_pdf w pdf_path pages_per_file = (Inr outs, w')" and "i < length outs"
  with split_pdf_names show "\<exists>a b. outs ! i =
         os_path_join OUTPUT_FOLDER
           ((''split_pages_'' @ str_int a @ ''-'' @ str_int b) @ ''_'' @
            strftime_stamp (clock w (tick w + i)) @ ''.pdf'')"
    by fastforce
next
  fix out w'
  assume "merge_pdfs w file_paths output_filename = (Inr out, w')"
  from merge_pdfs_Inr [OF this] show "out = os_path_join OUTPUT_FOLDER output_filename"
    by simp
next
  fix out w'
  assume "add_watermark w pdf_path watermark_text output_filename = (Inr out, w')"
  from add_watermark_fate [OF this] show "out = os_path_join OUTPUT_FOLDER output_filename"
    by simp
next
  fix out w'
  assume "rotate_pdf w pdf_path angle output_filename = (Inr out, w')"
  from rotate_pdf_fate [OF this] show "out = os_path_join OUTPUT_FOLDER output_filename"
    by simp
next
  fix out w'
  assume "create_cover_letter accepts w name position company email phone output_filename =
        (Inr out, w')"
  then show "out = os_path_join OUTPUT_FOLDER output_filename"
    by (rule create_cover_letter_Inr)
next
  assume "valid_datetime t1 \<and> valid_datetime t2"
  then show "(base_name @ ''_'' @ strftime_stamp t1 @ extension =
       base_name @ ''_'' @ strftime_stamp t2 @ extension) = same_second t1 t2"
    using strftime_stamp_inj [of t1 t2] valid_datetime_lengths [of t1] valid_datetime_lengths [of t2]
    by (simp add: strftime_stamp_def)
qed

text \<open>The theorem on a three-page file and two clock readings of the same second.\<close>

theorem generated_names_timestamped_witness:
  "valid_datetime example_time \<and> is_stamp (strftime_stamp example_time) \<and>
   extract_text three_world ''uploads/a.pdf'' =
     (Inr (''outputs/extracted_text_20260102_030405.txt'', full_text three_pages),
      snd (extract_text three_world ''uploads/a.pdf'')) \<and>
   ''outputs/extracted_text_20260102_030405.txt'' =
     os_path_join OUTPUT_FOLDER
       (''extracted_text'' @ ''_'' @ strftime_stamp (clock three_world (tick three_world)) @ ''.txt'') \<and>
   split_pdf three_world ''uploads/a.pdf'' 2 =
     (Inr [''outputs/split_pages_1-2_20260102_030405.pdf'',
           ''outputs/split_pages_3-3_20260102_030405.pdf''],
      snd (split_pdf three_world ''uploads/a.pdf'' 2)) \<and>
   (\<exists>a b. [''outputs/split_pages_1-2_20260102_030405.pdf'',
              ''outputs/split_pages_3-3_20260102_030405.pdf''] ! 1 =
         os_path_join OUTPUT_FOLDER
           ((''split_pages_'' @ str_int a @ ''-'' @ str_int b) @ ''_'' @
            strftime_stamp (clock three_world (tick three_world + 1)) @ ''.pdf'')) \<and>
   merge_pdfs three_world [''uploads/a.pdf''] ''m.pdf'' =
     (Inr ''outputs/m.pdf'', snd (merge_pdfs three_world [''uploads/a.pdf''] ''m.pdf'')) \<and>
   add_watermark three_world ''uploads/a.pdf'' ''draft'' ''m.pdf'' =
     (Inr ''outputs/m.pdf'', snd (add_watermark three_world ''uploads/a.pdf'' ''draft'' ''m.pdf'')) \<and>
   rotate_pdf three_world ''uploads/a.pdf'' 90 ''m.pdf'' =
     (Inr ''outputs/m.pdf'', snd (rotate_pdf three_world ''uploads/a.pdf'' 90 ''m.pdf'')) \<and>
   create_cover_letter accept_all three_world ''Jane Doe'' ''Engineer'' ''Acme'' [] [] ''m.pdf'' =
     (Inr ''outputs/m.pdf'',
      snd (create_cover_letter accept_all three_world ''Jane Doe'' ''Engineer'' ''Acme'' [] []
             ''m.pdf'')) \<and>
   ''outputs/m.pdf'' = os_path_join OUTPUT_FOLDER ''m.pdf'' \<and>
   valid_datetime example_later \<and>
   (''extracted_text'' @ ''_'' @ strftime_stamp example_time @ ''.txt'' =
    ''extracted_text'' @ ''_'' @ strftime_stamp example_later @ ''.txt'') =
     same_second example_time example_later"
proof -
  note t = generated_names_timestamped [where w = three_world and t = example_time
      and ?t1.0 = example_time and ?t2.0 = example_later and pdf_path = "''uploads/a.pdf''"
      and pages_per_file = 2 and file_paths = "[''uploads/a.pdf'']"
      and output_filename = "''m.pdf''" and watermark_text = "''draft''" and angle = 90
      and name = "''Jane Doe''" and position = "''Engineer''" and company = "''Acme''"
      and email = "[]" and phone = "[]" and base_name = "''extracted_text''"
      and extension = "''.txt''" and accepts = accept_all]
  have i: "1 < length [''outputs/split_pages_1-2_20260102_030405.pdf'',
                       ''outputs/split_pages_3-3_20260102_030405.pdf'']"
    by simp
  from t valid_example_time three_world_runs split_three_pair i show ?thesis
    by blast
qed

text \<open>Two different instants of the same second give the same generated name.\<close>

theorem same_second_same_name:
  "example_time \<noteq> example_later \<and>
   fst (generate_filename ''extracted_text'' ''.txt'' (world_at example_time)) =
   fst (generate_filename ''extracted_text'' ''.txt'' (world_at example_later))"
  by (simp add: generate_filename_eq strftime_stamp_def example_time_def example_later_def
        world_at_def)

subsection \<open>Allowed file names\<close>

text \<open>
  C10: a file name passes validation exactly when it contains a dot and the segment
  after its last dot is \<open>pdf\<close> in any letter case; \<open>x.PDF\<close> and \<open>x.exe.pdf\<close> pass,
  \<open>pdf\<close> and \<open>x.pdf.exe\<close> do not. The index \<open>[1]\<close> never raises.
\<close>

theorem allowed_file_iff_pdf_extension:
  "allowed_file f = Inr (CHR ''.'' \<in> set f \<and> lower (after_last_dot f) = ''pdf'') \<and>
   allowed_file ''x.PDF'' = Inr True \<and> allowed_file ''x.exe.pdf'' = Inr True \<and>
   allowed_file ''pdf'' = Inr False \<and> allowed_file ''x.pdf.exe'' = Inr False"
proof -
  have "allowed_file ''x.PDF'' = Inr True"
    by (simp add: allowed_file_char after_last_dot_def lower_def lower_char_def)
  moreover have "allowed_file ''x.exe.pdf'' = Inr True"
    by (simp add: allowed_file_char after_last_dot_def lower_def lower_char_def)
  moreover have "allowed_file ''pdf'' = Inr False"
    by (simp add: allowed_file_char)
  moreover have "allowed_file ''x.pdf.exe'' = Inr False"
    by (simp add: allowed_file_char after_last_dot_def lower_def lower_char_def)
  ultimately show ?thesis
    by (simp add: allowed_file_char)
qed

end
